theory Spec2Isabelle
  imports Main
begin

section \<open>The trust-score pipeline of \<^verbatim>\<open>trust.py\<close>\<close>

text \<open>
  The development embeds the encoding and verification pipeline of \<^verbatim>\<open>trust.py\<close>:
  the address split and the prover input vector of \<^verbatim>\<open>Stats\<close>, the reading of the
  prover's \<^verbatim>\<open>proof.json\<close> in \<^verbatim>\<open>Docker.get_results\<close>, the layouts handed to the
  verifier by \<^verbatim>\<open>Proof.to_solidity\<close> and \<^verbatim>\<open>Inputs.to_solidity\<close>, the call sequence
  of \<^verbatim>\<open>Contract.verify\<close> and the last stage of \<^verbatim>\<open>main\<close>.

  Python's integers are unbounded and are modelled by \<open>int\<close>. A Python \<^verbatim>\<open>str\<close> is
  modelled by \<open>string\<close>, each \<open>char\<close> standing for one code point below 256.
  Every exception of the source is an \<open>error\<close> value in a sum type, \<open>Inl\<close> carrying
  the error. The processes and services the program talks to (the ZoKrates container,
  the Ethereum node) are parameters of the model.
\<close>

subsection \<open>Errors\<close>

datatype error =
    ValueError
  | IndexError
  | RuntimeError string
  | External string

text \<open>
  \<open>ValueError\<close> is what \<^verbatim>\<open>int(x, 16)\<close> raises, \<open>IndexError\<close> what a list index out
  of range raises, \<open>RuntimeError\<close> what the source raises itself with its message, and
  \<open>External\<close> stands for any exception raised inside a collaborator.
\<close>

definition and_then :: "error + 'a \<Rightarrow> ('a \<Rightarrow> error + 'b) \<Rightarrow> error + 'b" where
  "and_then r f = (case r of Inl e \<Rightarrow> Inl e | Inr v \<Rightarrow> f v)"

definition index :: "'a list \<Rightarrow> nat \<Rightarrow> error + 'a" where
  \<comment> \<open>\<^verbatim>\<open>xs[i]\<close> for a literal index \<open>i \<ge> 0\<close>\<close>
  "index xs i = (if i < length xs then Inr (xs ! i) else Inl IndexError)"

subsection \<open>The builtin \<^verbatim>\<open>int(x, 16)\<close> on a string\<close>

text \<open>
  CPython turns every Unicode white space of the string into a blank and calls
  \<^verbatim>\<open>PyLong_FromString\<close>: leading white space is skipped, then one optional sign,
  then an optional \<^verbatim>\<open>0x\<close> or \<^verbatim>\<open>0X\<close> that one underscore may follow; the digits must
  not start with an underscore, single underscores may separate digits, an underscore
  may neither be doubled nor end the digits; at least one character must have been
  read; trailing white space is skipped and nothing may follow it.
\<close>

definition digit_value :: "char \<Rightarrow> nat" where
  \<comment> \<open>the table \<^verbatim>\<open>_PyLong_DigitValue\<close>: 37 marks a character that is no digit\<close>
  "digit_value ch =
     (let n = (of_char ch :: nat)
      in if 48 \<le> n \<and> n \<le> 57 then n - 48
         else if 97 \<le> n \<and> n \<le> 122 then n - 87
         else if 65 \<le> n \<and> n \<le> 90 then n - 55
         else 37)"

definition is_space :: "char \<Rightarrow> bool" where
  \<comment> \<open>\<^verbatim>\<open>Py_ISSPACE\<close>, and the two white space code points between 128 and 255\<close>
  "is_space ch =
     (let n = (of_char ch :: nat)
      in (9 \<le> n \<and> n \<le> 13) \<or> n = 32 \<or> n = 133 \<or> n = 160)"

definition skip_sign :: "string \<Rightarrow> int \<times> string" where
  "skip_sign s =
     (case s of
        [] \<Rightarrow> (1, s)
      | ch # r \<Rightarrow>
          if ch = CHR ''+'' then (1, r)
          else if ch = CHR ''-'' then (- 1, r)
          else (1, s))"

definition skip_prefix :: "string \<Rightarrow> string" where
  "skip_prefix s =
     (case s of
        c0 # c1 # r \<Rightarrow>
          if c0 = CHR ''0'' \<and> (c1 = CHR ''x'' \<or> c1 = CHR ''X'')
          then (case r of
                  [] \<Rightarrow> r
                | u # r' \<Rightarrow> if u = CHR ''_'' then r' else r)
          else s
      | _ \<Rightarrow> s)"

fun scan_digits :: "bool \<Rightarrow> int \<Rightarrow> string \<Rightarrow> (int \<times> string) option" where
  \<comment> \<open>the loop of \<^verbatim>\<open>long_from_binary_base\<close>; the flag says that the previous
      character was an underscore\<close>
  "scan_digits prev_us acc [] = (if prev_us then None else Some (acc, []))"
| "scan_digits prev_us acc (ch # r) =
     (if digit_value ch < 16
      then scan_digits False (16 * acc + int (digit_value ch)) r
      else if ch = CHR ''_''
      then (if prev_us then None else scan_digits True acc r)
      else (if prev_us then None else Some (acc, ch # r)))"

definition int16 :: "string \<Rightarrow> int option" where
  \<comment> \<open>\<^verbatim>\<open>int(s, 16)\<close>; \<open>None\<close> is the \<^verbatim>\<open>ValueError\<close>\<close>
  "int16 s =
     (let s1 = dropWhile is_space s;
          sg = skip_sign s1;
          s3 = skip_prefix (snd sg)
      in if s3 \<noteq> [] \<and> hd s3 = CHR ''_'' then None
         else case scan_digits False 0 s3 of
                None \<Rightarrow> None
              | Some (v, rest) \<Rightarrow>
                  if length rest = length s3 then None
                  else if dropWhile is_space rest \<noteq> [] then None
                  else Some (fst sg * v))"

definition parse_int16 :: "string \<Rightarrow> error + int" where
  "parse_int16 s = (case int16 s of None \<Rightarrow> Inl ValueError | Some v \<Rightarrow> Inr v)"

subsection \<open>Reading a string of hexadecimal digits, as the specification words it\<close>

definition hexdigit :: "char \<Rightarrow> bool" where
  "hexdigit ch = (digit_value ch < 16)"

definition lower_hexdigit :: "char \<Rightarrow> bool" where
  \<comment> \<open>one of \<^verbatim>\<open>0123456789abcdef\<close>\<close>
  "lower_hexdigit ch = (ch \<in> set ''0123456789abcdef'')"

definition hex_value :: "string \<Rightarrow> int" where
  \<comment> \<open>the digits read as a base-16 numeral, most significant digit first\<close>
  "hex_value s = foldl (\<lambda>acc ch. 16 * acc + int (digit_value ch)) 0 s"

definition parseHex :: "string \<Rightarrow> int option" where
  \<comment> \<open>the specification's \<^verbatim>\<open>parseHex\<close>: a non-empty string of hexadecimal digits has
      a value, anything else is a parse failure\<close>
  "parseHex s = (if s \<noteq> [] \<and> (\<forall>ch \<in> set s. hexdigit ch) then Some (hex_value s) else None)"

subsection \<open>The records of the source\<close>

text \<open>
  The fields \<^verbatim>\<open>a\<close>, \<^verbatim>\<open>b\<close>, \<^verbatim>\<open>c\<close> of \<^verbatim>\<open>Proof\<close> are named \<open>proof_a\<close>, \<open>proof_b\<close>,
  \<open>proof_c\<close> here, and the field \<^verbatim>\<open>proof\<close> of \<^verbatim>\<open>Computation\<close> is \<open>comp_proof\<close>.
  The source annotates the fields of \<^verbatim>\<open>Proof\<close> with \<^verbatim>\<open>list[int]\<close>, but
  \<^verbatim>\<open>get_results\<close> stores the strings of the document there and \<^verbatim>\<open>to_solidity\<close>
  parses them with \<^verbatim>\<open>int(x, 16)\<close>: the fields hold strings.
\<close>

record Proof =
  proof_a :: "string list"
  proof_b :: "string list list"
  proof_c :: "string list"

record Inputs =
  score :: int
  signature :: int
  address_part1 :: int
  address_part2 :: int

record Computation =
  curve :: string
  comp_proof :: Proof
  scheme :: string
  inputs :: Inputs

record Stats =
  contract_address :: string
  has_source_code :: bool
  total_supply :: int
  name :: string
  symbol :: string
  days_ago_added :: int
  is_active :: bool
  volume :: int
  market_cap :: int

subsection \<open>\<^verbatim>\<open>Stats\<close>: the address split and the prover input vector\<close>

definition split_address :: "Stats \<Rightarrow> error + (int \<times> int)" where
  "split_address st =
     (let size = length (contract_address st);
          middle = size div 2
      in and_then (parse_int16 (take middle (contract_address st))) (\<lambda>address_part1.
         and_then (parse_int16 (drop middle (contract_address st))) (\<lambda>address_part2.
         Inr (address_part1, address_part2))))"

definition int_of_bool :: "bool \<Rightarrow> int" where
  \<comment> \<open>\<^verbatim>\<open>int(b)\<close> on a boolean\<close>
  "int_of_bool b = (if b then 1 else 0)"

definition to_zkvm_input :: "Stats \<Rightarrow> error + int list" where
  "to_zkvm_input st =
     and_then (split_address st) (\<lambda>(address_part1, address_part2).
       Inr [address_part1,
            address_part2,
            days_ago_added st,
            int_of_bool (is_active st),
            volume st,
            market_cap st,
            total_supply st,
            int_of_bool (has_source_code st)])"

definition compute :: "(int list \<Rightarrow> error + Computation) \<Rightarrow> Stats \<Rightarrow> error + Computation" where
  \<comment> \<open>the first argument stands for \<^verbatim>\<open>Docker.run_compute_witness\<close>\<close>
  "compute prover st = and_then (to_zkvm_input st) prover"

subsection \<open>\<^verbatim>\<open>Docker\<close>: reading the prover's output\<close>

text \<open>
  \<^verbatim>\<open>get_results\<close> takes the outcome of \<^verbatim>\<open>get_zokrates_container_name\<close>, the return
  code of the \<^verbatim>\<open>cat proof.json\<close> command and the document that \<^verbatim>\<open>json.loads\<close>
  returns. The document is taken with the keys and the nesting that the source reads:
  \<^verbatim>\<open>curve\<close>, \<^verbatim>\<open>scheme\<close>, \<^verbatim>\<open>proof.a\<close>, \<^verbatim>\<open>proof.b\<close>, \<^verbatim>\<open>proof.c\<close> and \<^verbatim>\<open>inputs\<close>,
  arrays of strings of any length.
\<close>

record prover_doc =
  doc_curve :: string
  doc_scheme :: string
  doc_a :: "string list"
  doc_b :: "string list list"
  doc_c :: "string list"
  doc_inputs :: "string list"

definition get_results :: "error + string \<Rightarrow> int \<Rightarrow> prover_doc \<Rightarrow> error + Computation" where
  "get_results container_name returncode results =
     and_then container_name (\<lambda>_.
     if returncode \<noteq> 0 then Inl (RuntimeError ''ZoKrates get-calculation failed!'')
     else
       and_then (and_then (index (doc_inputs results) 0) parse_int16) (\<lambda>i0.
       and_then (and_then (index (doc_inputs results) 1) parse_int16) (\<lambda>i1.
       and_then (and_then (index (doc_inputs results) 2) parse_int16) (\<lambda>i2.
       and_then (and_then (index (doc_inputs results) 3) parse_int16) (\<lambda>i3.
       Inr \<lparr>curve = doc_curve results,
            comp_proof = \<lparr>proof_a = doc_a results,
                          proof_b = doc_b results,
                          proof_c = doc_c results\<rparr>,
            scheme = doc_scheme results,
            inputs = \<lparr>score = i0,
                      signature = i1,
                      address_part1 = i2,
                      address_part2 = i3\<rparr>\<rparr>)))))"

record zokrates =
  container_name :: "error + string"
  witness_returncode :: "int list \<Rightarrow> int"
  cat_returncode :: int
  proof_json :: "int list \<Rightarrow> prover_doc"

definition run_compute_witness :: "zokrates \<Rightarrow> int list \<Rightarrow> error + Computation" where
  "run_compute_witness z params =
     and_then (container_name z) (\<lambda>_.
     if witness_returncode z params \<noteq> 0 then Inl (RuntimeError ''ZoKrates compute-witness failed!'')
     else get_results (container_name z) (cat_returncode z) (proof_json z params))"

subsection \<open>The layouts handed to the verifier\<close>

type_synonym solidity_proof = "(int \<times> int) \<times> int list list \<times> (int \<times> int)"

definition hex_at :: "string list \<Rightarrow> nat \<Rightarrow> error + int" where
  \<comment> \<open>\<^verbatim>\<open>int(xs[i], 16)\<close>\<close>
  "hex_at xs i = and_then (index xs i) parse_int16"

definition hex_at2 :: "string list list \<Rightarrow> nat \<Rightarrow> nat \<Rightarrow> error + int" where
  \<comment> \<open>\<^verbatim>\<open>int(xs[i][j], 16)\<close>\<close>
  "hex_at2 xs i j = and_then (index xs i) (\<lambda>row. hex_at row j)"

definition Proof_to_solidity :: "Proof \<Rightarrow> error + solidity_proof" where
  "Proof_to_solidity p =
     and_then (hex_at (proof_a p) 0) (\<lambda>a0.
     and_then (hex_at (proof_a p) 1) (\<lambda>a1.
     and_then (hex_at2 (proof_b p) 0 0) (\<lambda>b00.
     and_then (hex_at2 (proof_b p) 0 1) (\<lambda>b01.
     and_then (hex_at2 (proof_b p) 1 0) (\<lambda>b10.
     and_then (hex_at2 (proof_b p) 1 1) (\<lambda>b11.
     and_then (hex_at (proof_c p) 0) (\<lambda>c0.
     and_then (hex_at (proof_c p) 1) (\<lambda>c1.
     Inr ((a0, a1), [[b00, b01], [b10, b11]], (c0, c1))))))))))"

definition Inputs_to_solidity :: "Inputs \<Rightarrow> int list" where
  "Inputs_to_solidity i = [score i, signature i, address_part1 i, address_part2 i]"

subsection \<open>\<^verbatim>\<open>Contract.verify\<close> and the last stage of \<^verbatim>\<open>main\<close>\<close>

text \<open>
  The node behind \<^verbatim>\<open>web3\<close> is a pair of functions: \<open>transact\<close> builds, signs and
  sends the \<^verbatim>\<open>verifyTx\<close> transaction and waits for its receipt, \<open>call\<close> is the
  read-only \<^verbatim>\<open>verifyTx(...).call()\<close>. Either may raise.
\<close>

record node =
  transact :: "solidity_proof \<Rightarrow> int list \<Rightarrow> error + unit"
  call :: "solidity_proof \<Rightarrow> int list \<Rightarrow> error + bool"

definition Contract_verify :: "node \<Rightarrow> Inputs \<Rightarrow> Proof \<Rightarrow> error + bool" where
  "Contract_verify w3 ins zkp =
     and_then (Proof_to_solidity zkp) (\<lambda>p.
     and_then (transact w3 p (Inputs_to_solidity ins)) (\<lambda>_.
     and_then (Proof_to_solidity zkp) (\<lambda>p'.
     call w3 p' (Inputs_to_solidity ins))))"

definition other_inputs :: "Computation \<Rightarrow> Stats \<Rightarrow> error + Inputs" where
  \<comment> \<open>the value \<^verbatim>\<open>other_inputs\<close> that \<^verbatim>\<open>main\<close> builds for the verifier\<close>
  "other_inputs computation stats =
     and_then (split_address stats) (\<lambda>first.
     and_then (split_address stats) (\<lambda>second.
     Inr \<lparr>score = score (inputs computation),
          signature = signature (inputs computation),
          address_part1 = fst first,
          address_part2 = snd second\<rparr>))"

definition main :: "(int list \<Rightarrow> error + Computation) \<Rightarrow> node \<Rightarrow> Stats \<Rightarrow> error + bool" where
  \<comment> \<open>\<^verbatim>\<open>main\<close> from \<^verbatim>\<open>stats.compute()\<close> on; the value returned is the \<^verbatim>\<open>receipt\<close>
      that the run prints as \<^verbatim>\<open>Certified\<close>\<close>
  "main prover w3 stats =
     and_then (compute prover stats) (\<lambda>computation.
     and_then (other_inputs computation stats) (\<lambda>ins.
     and_then (Contract_verify w3 ins (comp_proof computation)) (\<lambda>receipt.
     if \<not> receipt then Inl (RuntimeError ''Proof verification failed!'')
     else Inr receipt)))"

subsection \<open>Hexadecimal strings that denote unsigned 256-bit integers\<close>

text \<open>
  The specification's \<^verbatim>\<open>Proof\<close> holds hexadecimal strings convertible to unsigned
  256-bit integers: at most 64 hexadecimal digits, which \<^verbatim>\<open>0x\<close> may precede as in
  the prover's output.
\<close>

definition strip_0x :: "string \<Rightarrow> string" where
  "strip_0x s = (if take 2 s = ''0x'' then drop 2 s else s)"

definition uint256_hex :: "string \<Rightarrow> bool" where
  "uint256_hex s =
     (let d = strip_0x s in d \<noteq> [] \<and> (\<forall>ch \<in> set d. hexdigit ch) \<and> length d \<le> 64)"

definition uint256_value :: "string \<Rightarrow> int" where
  "uint256_value s = hex_value (strip_0x s)"

definition uint256 :: "int \<Rightarrow> bool" where
  "uint256 v = (0 \<le> v \<and> v < 2 ^ 256)"

subsection \<open>Sample data\<close>

definition example_stats :: "string \<Rightarrow> Stats" where
  "example_stats addr =
     \<lparr>contract_address = addr, has_source_code = True, total_supply = 1000,
      name = ''Token'', symbol = ''TKN'', days_ago_added = 10, is_active = True,
      volume = 500, market_cap = 2000\<rparr>"

definition stub_computation :: "Computation" where
  "stub_computation =
     \<lparr>curve = ''bn128'',
      comp_proof = \<lparr>proof_a = [''0x01'', ''0x02''],
                    proof_b = [[''0x03'', ''0x04''], [''0x05'', ''0x06'']],
                    proof_c = [''0x07'', ''0x08'']\<rparr>,
      scheme = ''g16'',
      inputs = \<lparr>score = 7, signature = 9, address_part1 = 666, address_part2 = 999\<rparr>\<rparr>"


definition malformed_proof_doc :: "prover_doc" where
  "malformed_proof_doc =
     \<lparr>doc_curve = ''bn128'', doc_scheme = ''g16'',
      doc_a = [''zz'', ''0x02''],
      doc_b = [[''0x03'', ''0x04''], [''0x05'', ''0x06'']],
      doc_c = [''0x07'', ''0x08''],
      doc_inputs = [''0x0a'', ''0x0b'', ''0x0c'', ''0x0d'']\<rparr>"

definition stub_prover :: "int list \<Rightarrow> error + Computation" where
  "stub_prover params = Inr stub_computation"

definition accepting_node :: "node" where
  "accepting_node = \<lparr>transact = (\<lambda>p i. Inr ()), call = (\<lambda>p i. Inr True)\<rparr>"


section \<open>Properties\<close>

subsection \<open>The base-16 parser on strings of hexadecimal digits\<close>

lemma hexdigit_not_space: "hexdigit ch \<Longrightarrow> \<not> is_space ch"
  by (auto simp: hexdigit_def digit_value_def is_space_def Let_def split: if_splits)

lemma hexdigit_not_special:
  assumes "hexdigit ch"
  shows "ch \<noteq> CHR ''+''" "ch \<noteq> CHR ''-''" "ch \<noteq> CHR ''x''" "ch \<noteq> CHR ''X''" "ch \<noteq> CHR ''_''"
proof -
  have "\<not> hexdigit CHR ''+''" "\<not> hexdigit CHR ''-''" "\<not> hexdigit CHR ''x''"
       "\<not> hexdigit CHR ''X''" "\<not> hexdigit CHR ''_''"
    by (simp_all add: hexdigit_def digit_value_def)
  with assms show "ch \<noteq> CHR ''+''" "ch \<noteq> CHR ''-''" "ch \<noteq> CHR ''x''" "ch \<noteq> CHR ''X''" "ch \<noteq> CHR ''_''"
    by auto
qed

lemma scan_digits_hex:
  "\<forall>ch \<in> set s. hexdigit ch \<Longrightarrow> s \<noteq> [] \<or> \<not> p \<Longrightarrow>
   scan_digits p acc s = Some (foldl (\<lambda>acc ch. 16 * acc + int (digit_value ch)) acc s, [])"
proof (induction s arbitrary: p acc)
  case Nil
  then show ?case by simp
next
  case (Cons ch r)
  then show ?case by (simp add: hexdigit_def)
qed

lemma int16_hex:
  assumes ne: "s \<noteq> []" and hex: "\<forall>ch \<in> set s. hexdigit ch"
  shows "int16 s = Some (hex_value s)"
proof -
  obtain c0 r where s: "s = c0 # r" using ne by (cases s) auto
  have h0: "hexdigit c0" using hex s by simp
  have d: "dropWhile is_space s = s" using s h0 by (simp add: hexdigit_not_space)
  have sg: "skip_sign s = (1, s)"
    using s hexdigit_not_special[OF h0] by (simp add: skip_sign_def)
  have pf: "skip_prefix s = s"
  proof (cases r)
    case Nil
    then show ?thesis using s by (simp add: skip_prefix_def)
  next
    case (Cons c1 r')
    then have "hexdigit c1" using hex s by simp
    from hexdigit_not_special[OF this] show ?thesis using s Cons by (simp add: skip_prefix_def)
  qed
  have sc: "scan_digits False 0 s = Some (hex_value s, [])"
    using scan_digits_hex[OF hex, of False 0] by (simp add: hex_value_def)
  have us: "hd s \<noteq> CHR ''_''" using s hexdigit_not_special[OF h0] by simp
  show ?thesis
    using ne us by (simp add: int16_def Let_def d sg pf sc)
qed

lemma foldl_hex_append:
  "foldl (\<lambda>acc ch. 16 * acc + int (digit_value ch)) acc s
     = acc * 16 ^ length s + foldl (\<lambda>acc ch. 16 * acc + int (digit_value ch)) 0 s"
proof -
  define F where "F = foldl (\<lambda>acc ch. 16 * acc + int (digit_value ch))"
  have "F acc s = acc * 16 ^ length s + F 0 s"
  proof (induction s arbitrary: acc)
    case Nil
    show ?case by (simp add: F_def)
  next
    case (Cons ch r)
    define d where "d = int (digit_value ch)"
    define P where "P = (16::int) ^ length r"
    have 1: "F acc (ch # r) = F (16 * acc + d) r" by (simp add: F_def d_def)
    have 2: "F 0 (ch # r) = F d r" by (simp add: F_def d_def)
    have 3: "F (16 * acc + d) r = (16 * acc + d) * P + F 0 r"
      unfolding P_def by (rule Cons.IH)
    have 4: "F d r = d * P + F 0 r"
      unfolding P_def by (rule Cons.IH)
    have 5: "(16::int) ^ length (ch # r) = 16 * P" by (simp add: P_def)
    show ?case unfolding 1 2 3 4 5 by (simp add: algebra_simps)
  qed
  then show ?thesis by (simp add: F_def)
qed

lemma hex_value_append:
  "hex_value (xs @ ys) = hex_value xs * 16 ^ length ys + hex_value ys"
  unfolding hex_value_def foldl_append by (rule foldl_hex_append)

lemma hex_value_Cons:
  "hex_value (ch # r) = int (digit_value ch) * 16 ^ length r + hex_value r"
  using hex_value_append[of "[ch]" r] by (simp add: hex_value_def)

lemma hex_value_nonneg: "0 \<le> hex_value s"
proof (induction s)
  case Nil
  show ?case by (simp add: hex_value_def)
next
  case (Cons ch r)
  then show ?case by (simp add: hex_value_Cons)
qed

lemma hex_value_less:
  "\<forall>ch \<in> set s. hexdigit ch \<Longrightarrow> hex_value s < 16 ^ length s"
proof (induction s)
  case Nil
  show ?case by (simp add: hex_value_def)
next
  case (Cons ch r)
  define d where "d = int (digit_value ch)"
  define P where "P = (16::int) ^ length r"
  have d: "d \<le> 15" using Cons.prems by (simp add: hexdigit_def d_def)
  have r: "hex_value r < P" using Cons by (simp add: P_def)
  have P: "0 \<le> P" by (simp add: P_def)
  have m: "d * P \<le> 15 * P" using d P by (rule mult_right_mono)
  have 1: "hex_value (ch # r) = d * P + hex_value r" by (simp add: hex_value_Cons d_def P_def)
  have 2: "(16::int) ^ length (ch # r) = 16 * P" by (simp add: P_def)
  show ?case unfolding 1 2 using m r by linarith
qed

lemma lower_hexdigit_code:
  "lower_hexdigit ch \<Longrightarrow>
   (48 \<le> (of_char ch :: nat) \<and> (of_char ch :: nat) \<le> 57) \<or>
   (97 \<le> (of_char ch :: nat) \<and> (of_char ch :: nat) \<le> 102)"
  unfolding lower_hexdigit_def by (elim disjE | simp)+

lemma lower_hexdigit_hexdigit: "lower_hexdigit ch \<Longrightarrow> hexdigit ch"
  using lower_hexdigit_code[of ch] by (auto simp: hexdigit_def digit_value_def Let_def)

lemma lower_digit_value_inj:
  assumes "lower_hexdigit x" "lower_hexdigit y" "digit_value x = digit_value y"
  shows "x = y"
proof -
  define m where "m = (of_char x :: nat)"
  define n where "n = (of_char y :: nat)"
  have rx: "(48 \<le> m \<and> m \<le> 57) \<or> (97 \<le> m \<and> m \<le> 102)"
    using lower_hexdigit_code[OF assms(1)] by (simp add: m_def)
  have ry: "(48 \<le> n \<and> n \<le> 57) \<or> (97 \<le> n \<and> n \<le> 102)"
    using lower_hexdigit_code[OF assms(2)] by (simp add: n_def)
  have dx: "digit_value x = (if m \<le> 57 then m - 48 else m - 87)"
    using rx by (auto simp: digit_value_def Let_def m_def)
  have dy: "digit_value y = (if n \<le> 57 then n - 48 else n - 87)"
    using ry by (auto simp: digit_value_def Let_def n_def)
  have "m = n" using rx ry assms(3) unfolding dx dy by (auto split: if_splits)
  then show ?thesis unfolding m_def n_def by (rule of_char_eqI)
qed

lemma hex_value_inj:
  "length s = length t \<Longrightarrow> \<forall>ch \<in> set s. lower_hexdigit ch \<Longrightarrow> \<forall>ch \<in> set t. lower_hexdigit ch \<Longrightarrow>
   hex_value s = hex_value t \<Longrightarrow> s = t"
proof (induction s t rule: list_induct2)
  case Nil
  show ?case by simp
next
  case (Cons x xs y ys)
  have hx: "\<forall>ch \<in> set xs. hexdigit ch" and hy: "\<forall>ch \<in> set ys. hexdigit ch"
    using Cons.prems by (auto intro: lower_hexdigit_hexdigit)
  let ?P = "(16::int) ^ length xs"
  have bx: "0 \<le> hex_value xs" "hex_value xs < ?P"
    using hex_value_nonneg hex_value_less[OF hx] by auto
  have by': "0 \<le> hex_value ys" "hex_value ys < ?P"
    using hex_value_nonneg hex_value_less[OF hy] Cons.hyps by auto
  have eq: "int (digit_value x) * ?P + hex_value xs = int (digit_value y) * ?P + hex_value ys"
    using Cons.prems(3) Cons.hyps by (simp add: hex_value_Cons)
  have "(int (digit_value x) * ?P + hex_value xs) div ?P = int (digit_value x)"
    using bx by simp
  moreover have "(int (digit_value y) * ?P + hex_value ys) div ?P = int (digit_value y)"
    using by' by simp
  ultimately have dv: "digit_value x = digit_value y" using eq by simp
  then have "x = y" using Cons.prems by (auto intro: lower_digit_value_inj)
  moreover have "hex_value xs = hex_value ys" using eq dv by simp
  then have "xs = ys" using Cons by simp
  ultimately show ?case by simp
qed

lemma int16_0x:
  assumes ne: "d \<noteq> []" and hex: "\<forall>ch \<in> set d. hexdigit ch"
  shows "int16 (CHR ''0'' # CHR ''x'' # d) = Some (hex_value d)"
proof -
  let ?s = "CHR ''0'' # CHR ''x'' # d"
  obtain c0 r where d: "d = c0 # r" using ne by (cases d) auto
  have h0: "hexdigit c0" using hex d by simp
  have z: "\<not> is_space CHR ''0''" by (simp add: is_space_def)
  have dw: "dropWhile is_space ?s = ?s" using z by simp
  have sg: "skip_sign ?s = (1, ?s)" by (simp add: skip_sign_def)
  have pf: "skip_prefix ?s = d"
    using d hexdigit_not_special[OF h0] by (simp add: skip_prefix_def)
  have sc: "scan_digits False 0 d = Some (hex_value d, [])"
    using scan_digits_hex[OF hex, of False 0] by (simp add: hex_value_def)
  have us: "hd d \<noteq> CHR ''_''" using d hexdigit_not_special[OF h0] by simp
  show ?thesis
    unfolding int16_def Let_def dw sg using ne us by (simp add: pf sc)
qed

lemma int16_empty: "int16 [] = None"
  by (simp add: int16_def skip_sign_def skip_prefix_def)

lemma int16_parseHex: "\<forall>ch \<in> set s. hexdigit ch \<Longrightarrow> int16 s = parseHex s"
proof (cases "s = []")
  case True
  then show ?thesis by (simp add: int16_def parseHex_def skip_sign_def skip_prefix_def)
next
  case False
  assume "\<forall>ch \<in> set s. hexdigit ch"
  with False show ?thesis by (simp add: int16_hex parseHex_def)
qed

lemma parse_int16_hex:
  "s \<noteq> [] \<Longrightarrow> \<forall>ch \<in> set s. hexdigit ch \<Longrightarrow> parse_int16 s = Inr (hex_value s)"
  by (simp add: parse_int16_def int16_hex)

lemma split_address_cases:
  "split_address st =
     (case int16 (take (length (contract_address st) div 2) (contract_address st)) of
        None \<Rightarrow> Inl ValueError
      | Some p1 \<Rightarrow>
          (case int16 (drop (length (contract_address st) div 2) (contract_address st)) of
             None \<Rightarrow> Inl ValueError
           | Some p2 \<Rightarrow> Inr (p1, p2)))"
  by (simp add: split_address_def Let_def and_then_def parse_int16_def split: option.splits)

lemma split_address_hex:
  assumes hex: "\<forall>ch \<in> set (contract_address st). hexdigit ch"
    and len: "2 \<le> length (contract_address st)"
  shows "split_address st =
           Inr (hex_value (take (length (contract_address st) div 2) (contract_address st)),
                hex_value (drop (length (contract_address st) div 2) (contract_address st)))"
proof -
  let ?s = "contract_address st"
  let ?m = "length ?s div 2"
  have t: "take ?m ?s \<noteq> []" using len by auto
  have d: "drop ?m ?s \<noteq> []" using len by auto
  have ht: "\<forall>ch \<in> set (take ?m ?s). hexdigit ch" using hex by (auto dest: in_set_takeD)
  have hd: "\<forall>ch \<in> set (drop ?m ?s). hexdigit ch" using hex by (auto dest: in_set_dropD)
  show ?thesis
    by (simp add: split_address_cases int16_hex[OF t ht] int16_hex[OF d hd])
qed

lemma hex_value_halves:
  "hex_value s = hex_value (take m s) * 16 ^ length (drop m s) + hex_value (drop m s)"
  using hex_value_append[of "take m s" "drop m s"] by simp

subsection \<open>The address split\<close>

text \<open>
  C9. For every address of hexadecimal digits (either case) of even length \<open>L \<ge> 2\<close>,
  \<^verbatim>\<open>split_address\<close> succeeds, and its two parts are the exact base-16 decomposition of
  the value of the whole address: \<open>part1 * 16 ^ (L div 2) + part2\<close> is that value and
  \<open>0 \<le> part2 < 16 ^ (L div 2)\<close>.
\<close>

theorem split_address_lossless:
  assumes "\<forall>ch \<in> set (contract_address st). hexdigit ch"
    and "even (length (contract_address st))"
    and "2 \<le> length (contract_address st)"
  shows "\<exists>part1 part2.
           split_address st = Inr (part1, part2) \<and>
           parseHex (contract_address st)
             = Some (part1 * 16 ^ (length (contract_address st) div 2) + part2) \<and>
           0 \<le> part2 \<and> part2 < 16 ^ (length (contract_address st) div 2)"
proof -
  let ?s = "contract_address st"
  let ?m = "length ?s div 2"
  have ne: "?s \<noteq> []" using assms(3) by auto
  have ld: "length (drop ?m ?s) = ?m" using assms(2) by auto
  have hd: "\<forall>ch \<in> set (drop ?m ?s). hexdigit ch" using assms(1) by (auto dest: in_set_dropD)
  have "hex_value ?s = hex_value (take ?m ?s @ drop ?m ?s)" by simp
  also have "\<dots> = hex_value (take ?m ?s) * 16 ^ ?m + hex_value (drop ?m ?s)"
    unfolding hex_value_append ld ..
  finally have whole: "hex_value ?s = hex_value (take ?m ?s) * 16 ^ ?m + hex_value (drop ?m ?s)" .
  have lt: "hex_value (drop ?m ?s) < 16 ^ ?m" using hex_value_less[OF hd] ld by simp
  have ph: "parseHex ?s = Some (hex_value ?s)" using ne assms(1) by (simp add: parseHex_def)
  show ?thesis
    using split_address_hex[OF assms(1) assms(3)] whole lt ph hex_value_nonneg by simp
qed

theorem split_address_lossless_witness:
  "\<exists>part1 part2.
     split_address (example_stats ''dead00beef'') = Inr (part1, part2) \<and>
     parseHex ''dead00beef'' = Some (part1 * 16 ^ 5 + part2) \<and>
     0 \<le> part2 \<and> part2 < 16 ^ 5"
  using split_address_lossless[of "example_stats ''dead00beef''"]
  by (simp add: example_stats_def hexdigit_def digit_value_def)

text \<open>
  C2. For every address of lowercase hexadecimal digits of even length \<open>L\<close>,
  \<^verbatim>\<open>split_address\<close> takes \<open>middle = L div 2\<close> and returns the specification's
  \<^verbatim>\<open>parseHex\<close> of the first \<open>middle\<close> characters and of the rest (a parse failure of
  either half, which the empty address alone has, is the \<^verbatim>\<open>ValueError\<close>); for 40
  digits the result is the first 20 and the last 20 digits read in base 16.
\<close>

theorem split_address_algorithm:
  assumes "\<forall>ch \<in> set (contract_address st). lower_hexdigit ch"
    and "even (length (contract_address st))"
  shows "split_address st =
           (case parseHex (take (length (contract_address st) div 2) (contract_address st)) of
              None \<Rightarrow> Inl ValueError
            | Some part1 \<Rightarrow>
                (case parseHex (drop (length (contract_address st) div 2) (contract_address st)) of
                   None \<Rightarrow> Inl ValueError
                 | Some part2 \<Rightarrow> Inr (part1, part2)))
         \<and> (length (contract_address st) = 40 \<longrightarrow>
              split_address st = Inr (hex_value (take 20 (contract_address st)),
                                      hex_value (drop 20 (contract_address st))))"
proof -
  let ?s = "contract_address st"
  let ?m = "length ?s div 2"
  have hex: "\<forall>ch \<in> set ?s. hexdigit ch" using assms(1) by (auto intro: lower_hexdigit_hexdigit)
  have ht: "\<forall>ch \<in> set (take ?m ?s). hexdigit ch" using hex by (auto dest: in_set_takeD)
  have hd: "\<forall>ch \<in> set (drop ?m ?s). hexdigit ch" using hex by (auto dest: in_set_dropD)
  have 1: "split_address st =
           (case parseHex (take ?m ?s) of
              None \<Rightarrow> Inl ValueError
            | Some part1 \<Rightarrow>
                (case parseHex (drop ?m ?s) of
                   None \<Rightarrow> Inl ValueError
                 | Some part2 \<Rightarrow> Inr (part1, part2)))"
    unfolding split_address_cases int16_parseHex[OF ht] int16_parseHex[OF hd] ..
  have 2: "split_address st = Inr (hex_value (take 20 ?s), hex_value (drop 20 ?s))"
    if "length ?s = 40"
    using split_address_hex[OF hex] that by simp
  show ?thesis using 1 2 by blast
qed

theorem split_address_algorithm_witness:
  "split_address (example_stats ''52908400098527886e0f7030069857d2e4169ee7'')
     = Inr (hex_value ''52908400098527886e0f'', hex_value ''7030069857d2e4169ee7'')
   \<and> hex_value ''52908400098527886e0f'' = 389899894354805587996175
   \<and> hex_value ''7030069857d2e4169ee7'' = 529790965023262291435239"
proof -
  let ?st = "example_stats ''52908400098527886e0f7030069857d2e4169ee7''"
  have 1: "\<forall>ch \<in> set (contract_address ?st). lower_hexdigit ch"
    by (simp add: example_stats_def lower_hexdigit_def)
  have 2: "even (length (contract_address ?st))" by (simp add: example_stats_def)
  have 3: "length (contract_address ?st) = 40" by (simp add: example_stats_def)
  from split_address_algorithm[OF 1 2] 3
  have "split_address ?st = Inr (hex_value (take 20 (contract_address ?st)),
                                 hex_value (drop 20 (contract_address ?st)))"
    by blast
  then show ?thesis by (simp add: example_stats_def hex_value_def digit_value_def)
qed

text \<open>
  C10. \<^verbatim>\<open>split_address\<close> checks no length: on every address of hexadecimal digits of
  length \<open>L \<ge> 2\<close>, odd or not 40 included, it returns the values of the first
  \<open>L div 2\<close> characters and of the rest. It fails exactly when \<^verbatim>\<open>int(x, 16)\<close> rejects
  one of the two halves, the error is then the \<^verbatim>\<open>ValueError\<close>, and the empty address
  is such an input.
\<close>

theorem split_address_no_length_check:
  "((\<forall>ch \<in> set (contract_address st). hexdigit ch) \<and> 2 \<le> length (contract_address st) \<longrightarrow>
      (\<exists>part1 part2.
         parseHex (take (length (contract_address st) div 2) (contract_address st)) = Some part1 \<and>
         parseHex (drop (length (contract_address st) div 2) (contract_address st)) = Some part2 \<and>
         split_address st = Inr (part1, part2)))
   \<and> ((\<exists>e. split_address st = Inl e) \<longleftrightarrow>
         int16 (take (length (contract_address st) div 2) (contract_address st)) = None \<or>
         int16 (drop (length (contract_address st) div 2) (contract_address st)) = None)
   \<and> (\<forall>e. split_address st = Inl e \<longrightarrow> e = ValueError)
   \<and> (contract_address st = [] \<longrightarrow> split_address st = Inl ValueError)"
proof -
  let ?s = "contract_address st"
  let ?m = "length ?s div 2"
  have 1: "\<exists>part1 part2. parseHex (take ?m ?s) = Some part1 \<and> parseHex (drop ?m ?s) = Some part2 \<and>
             split_address st = Inr (part1, part2)"
    if hex: "\<forall>ch \<in> set ?s. hexdigit ch" and len: "2 \<le> length ?s"
  proof -
    have t: "take ?m ?s \<noteq> []" using len by auto
    have d: "drop ?m ?s \<noteq> []" using len by auto
    have ht: "\<forall>ch \<in> set (take ?m ?s). hexdigit ch" using hex by (auto dest: in_set_takeD)
    have hd: "\<forall>ch \<in> set (drop ?m ?s). hexdigit ch" using hex by (auto dest: in_set_dropD)
    show ?thesis
      using split_address_hex[OF hex len] t d ht hd by (simp add: parseHex_def)
  qed
  have 2: "(\<exists>e. split_address st = Inl e) \<longleftrightarrow> int16 (take ?m ?s) = None \<or> int16 (drop ?m ?s) = None"
    unfolding split_address_cases by (auto split: option.splits)
  have 3: "\<forall>e. split_address st = Inl e \<longrightarrow> e = ValueError"
    unfolding split_address_cases by (auto split: option.splits)
  have e: "int16 [] = None" by (simp add: int16_def skip_sign_def skip_prefix_def)
  have 4: "?s = [] \<longrightarrow> split_address st = Inl ValueError"
    unfolding split_address_cases by (simp add: e)
  show ?thesis using 1 2 3 4 by blast
qed

theorem split_address_no_length_check_witness:
  "split_address (example_stats ''abc'') = Inr (10, 188)
   \<and> odd (length ''abc'')
   \<and> split_address (example_stats []) = Inl ValueError
   \<and> split_address (example_stats ''00zz'') = Inl ValueError"
proof -
  have 1: "(\<forall>ch \<in> set (contract_address (example_stats ''abc'')). hexdigit ch)
           \<and> 2 \<le> length (contract_address (example_stats ''abc''))"
    by (simp add: example_stats_def hexdigit_def digit_value_def)
  have 2: "contract_address (example_stats []) = []" by (simp add: example_stats_def)
  from split_address_no_length_check[of "example_stats ''abc''"] 1
  have "\<exists>part1 part2.
          parseHex (take (length (contract_address (example_stats ''abc'')) div 2)
                         (contract_address (example_stats ''abc''))) = Some part1 \<and>
          parseHex (drop (length (contract_address (example_stats ''abc'')) div 2)
                         (contract_address (example_stats ''abc''))) = Some part2 \<and>
          split_address (example_stats ''abc'') = Inr (part1, part2)"
    by blast
  then have a: "split_address (example_stats ''abc'') = Inr (10, 188)"
    by (auto simp: example_stats_def parseHex_def hex_value_def hexdigit_def digit_value_def)
  from split_address_no_length_check[of "example_stats []"] 2
  have b: "split_address (example_stats []) = Inl ValueError" by blast
  have "int16 ''zz'' = None"
    by (simp add: int16_def skip_sign_def skip_prefix_def is_space_def digit_value_def)
  then have z: "int16 (drop (length (contract_address (example_stats ''00zz'')) div 2)
                             (contract_address (example_stats ''00zz''))) = None"
    by (simp add: example_stats_def)
  from split_address_no_length_check[of "example_stats ''00zz''"] z
  have c: "split_address (example_stats ''00zz'') = Inl ValueError" by blast
  show ?thesis using a b c by simp
qed


text \<open>
  C8. On addresses of 40 hexadecimal digits the split is injective: two addresses with
  the same pair of parts have the same value, and two distinct addresses of lowercase
  digits never have the same pair. (A digit and its uppercase spelling have the same
  value, so two spellings of one address have the same pair.)
\<close>

theorem split_address_injective:
  assumes "length (contract_address s) = 40" and "length (contract_address t) = 40"
    and "\<forall>ch \<in> set (contract_address s). hexdigit ch"
    and "\<forall>ch \<in> set (contract_address t). hexdigit ch"
  shows "(split_address s = split_address t \<longrightarrow>
            hex_value (contract_address s) = hex_value (contract_address t))
         \<and> ((\<forall>ch \<in> set (contract_address s). lower_hexdigit ch) \<and>
             (\<forall>ch \<in> set (contract_address t). lower_hexdigit ch) \<and>
             contract_address s \<noteq> contract_address t \<longrightarrow>
             split_address s \<noteq> split_address t)"
proof -
  let ?a = "contract_address s"
  let ?b = "contract_address t"
  have sa: "split_address s = Inr (hex_value (take 20 ?a), hex_value (drop 20 ?a))"
    using split_address_hex[OF assms(3)] assms(1) by simp
  have sb: "split_address t = Inr (hex_value (take 20 ?b), hex_value (drop 20 ?b))"
    using split_address_hex[OF assms(4)] assms(2) by simp
  have wa: "hex_value ?a = hex_value (take 20 ?a) * 16 ^ 20 + hex_value (drop 20 ?a)"
    using hex_value_halves[of ?a 20] assms(1) by simp
  have wb: "hex_value ?b = hex_value (take 20 ?b) * 16 ^ 20 + hex_value (drop 20 ?b)"
    using hex_value_halves[of ?b 20] assms(2) by simp
  have 1: "hex_value ?a = hex_value ?b" if "split_address s = split_address t"
    using that unfolding sa sb wa wb by simp
  have 2: "?a = ?b"
    if eq: "split_address s = split_address t"
      and la: "\<forall>ch \<in> set ?a. lower_hexdigit ch" and lb: "\<forall>ch \<in> set ?b. lower_hexdigit ch"
  proof -
    from eq have e1: "hex_value (take 20 ?a) = hex_value (take 20 ?b)"
      and e2: "hex_value (drop 20 ?a) = hex_value (drop 20 ?b)"
      unfolding sa sb by simp_all
    have "take 20 ?a = take 20 ?b"
      using assms(1,2) la lb by (intro hex_value_inj[OF _ _ _ e1]) (auto dest: in_set_takeD)
    moreover have "drop 20 ?a = drop 20 ?b"
      using assms(1,2) la lb by (intro hex_value_inj[OF _ _ _ e2]) (auto dest: in_set_dropD)
    ultimately show ?thesis by (metis append_take_drop_id)
  qed
  show ?thesis using 1 2 by blast
qed

theorem split_address_injective_witness:
  "split_address (example_stats ''52908400098527886e0f7030069857d2e4169ee7'')
     \<noteq> split_address (example_stats ''52908400098527886e0f7030069857d2e4169ee8'')
   \<and> split_address (example_stats ''52908400098527886E0F7030069857D2E4169EE7'')
     = split_address (example_stats ''52908400098527886e0f7030069857d2e4169ee7'')
   \<and> hex_value ''52908400098527886E0F7030069857D2E4169EE7''
     = hex_value ''52908400098527886e0f7030069857d2e4169ee7''"
proof -
  let ?s = "example_stats ''52908400098527886e0f7030069857d2e4169ee7''"
  let ?t = "example_stats ''52908400098527886e0f7030069857d2e4169ee8''"
  let ?u = "example_stats ''52908400098527886E0F7030069857D2E4169EE7''"
  have ls: "\<forall>ch \<in> set (contract_address ?s). lower_hexdigit ch"
    by (simp add: example_stats_def lower_hexdigit_def)
  have lt: "\<forall>ch \<in> set (contract_address ?t). lower_hexdigit ch"
    by (simp add: example_stats_def lower_hexdigit_def)
  have hs: "\<forall>ch \<in> set (contract_address ?s). hexdigit ch"
    using ls by (auto intro: lower_hexdigit_hexdigit)
  have ht: "\<forall>ch \<in> set (contract_address ?t). hexdigit ch"
    using lt by (auto intro: lower_hexdigit_hexdigit)
  have hu: "\<forall>ch \<in> set (contract_address ?u). hexdigit ch"
    by (simp add: example_stats_def hexdigit_def digit_value_def)
  have 1: "length (contract_address ?s) = 40" by (simp add: example_stats_def)
  have 2: "length (contract_address ?t) = 40" by (simp add: example_stats_def)
  have 3: "length (contract_address ?u) = 40" by (simp add: example_stats_def)
  have ne: "contract_address ?s \<noteq> contract_address ?t" by (simp add: example_stats_def)
  from split_address_injective[OF 1 2 hs ht] ls lt ne
  have a: "split_address ?s \<noteq> split_address ?t" by blast
  have "split_address ?u = Inr (389899894354805587996175, 529790965023262291435239)"
    using split_address_hex[OF hu] by (simp add: example_stats_def hex_value_def digit_value_def)
  moreover have "split_address ?s = Inr (389899894354805587996175, 529790965023262291435239)"
    using split_address_hex[OF hs] by (simp add: example_stats_def hex_value_def digit_value_def)
  ultimately have b: "split_address ?u = split_address ?s" by simp
  from split_address_injective[OF 3 1 hu hs] b
  have "hex_value (contract_address ?u) = hex_value (contract_address ?s)" by blast
  then have c: "hex_value ''52908400098527886E0F7030069857D2E4169EE7''
     = hex_value ''52908400098527886e0f7030069857d2e4169ee7''"
    by (simp only: example_stats_def Stats.simps)
  show ?thesis using a b c by blast
qed

subsection \<open>The prover input vector\<close>

text \<open>
  C4. Whenever the address splits, \<^verbatim>\<open>to_zkvm_input\<close> returns the 8 elements
  \<open>[address_part1, address_part2, days_ago_added, is_active, volume, market_cap,
  total_supply, has_source_code]\<close>, the two booleans as 0 or 1, and every vector it
  returns has 8 elements. The specification's scenario, whose address has 38 digits,
  is encoded to \<open>[0, 1, 10, 1, 500, 2000, 1000, 1]\<close>.
\<close>

theorem to_zkvm_input_vector:
  "(split_address st = Inr (part1, part2) \<longrightarrow>
      to_zkvm_input st =
        Inr [part1, part2, days_ago_added st,
             (if is_active st then 1 else 0), volume st, market_cap st, total_supply st,
             (if has_source_code st then 1 else 0)])
   \<and> (\<forall>v. to_zkvm_input st = Inr v \<longrightarrow> length v = 8)
   \<and> to_zkvm_input
        \<lparr>contract_address = ''00000000000000000000000000000000000001'',
         has_source_code = True, total_supply = 1000, name = token_name,
         symbol = token_symbol, days_ago_added = 10, is_active = True,
         volume = 500, market_cap = 2000\<rparr>
       = Inr [0, 1, 10, 1, 500, 2000, 1000, 1]"
proof -
  have 1: "to_zkvm_input st =
        Inr [part1, part2, days_ago_added st,
             (if is_active st then 1 else 0), volume st, market_cap st, total_supply st,
             (if has_source_code st then 1 else 0)]"
    if "split_address st = Inr (part1, part2)"
    using that by (simp add: to_zkvm_input_def and_then_def int_of_bool_def)
  have 2: "\<forall>v. to_zkvm_input st = Inr v \<longrightarrow> length v = 8"
    by (auto simp: to_zkvm_input_def and_then_def split: sum.splits)
  let ?sc = "\<lparr>contract_address = ''00000000000000000000000000000000000001'',
         has_source_code = True, total_supply = 1000, name = token_name,
         symbol = token_symbol, days_ago_added = 10, is_active = True,
         volume = 500, market_cap = 2000\<rparr>"
  have h: "\<forall>ch \<in> set (contract_address ?sc). hexdigit ch"
    by (simp add: hexdigit_def digit_value_def)
  have "split_address ?sc = Inr (0, 1)"
    using split_address_hex[OF h] by (simp add: hex_value_def digit_value_def)
  then have 3: "to_zkvm_input ?sc = Inr [0, 1, 10, 1, 500, 2000, 1000, 1]"
    by (simp add: to_zkvm_input_def and_then_def int_of_bool_def)
  show ?thesis using 1 2 3 by blast
qed

theorem to_zkvm_input_vector_witness:
  "split_address (example_stats ''dead00beef'') = Inr (912080, 48879)
   \<and> to_zkvm_input (example_stats ''dead00beef'')
       = Inr [912080, 48879, 10, 1, 500, 2000, 1000, 1]"
proof -
  have h: "\<forall>ch \<in> set (contract_address (example_stats ''dead00beef'')). hexdigit ch"
    by (simp add: example_stats_def hexdigit_def digit_value_def)
  have s: "split_address (example_stats ''dead00beef'') = Inr (912080, 48879)"
    using split_address_hex[OF h] by (simp add: example_stats_def hex_value_def digit_value_def)
  from to_zkvm_input_vector[of "example_stats ''dead00beef''" 912080 48879] s
  have "to_zkvm_input (example_stats ''dead00beef'') =
        Inr [912080, 48879, days_ago_added (example_stats ''dead00beef''),
             (if is_active (example_stats ''dead00beef'') then 1 else 0),
             volume (example_stats ''dead00beef''), market_cap (example_stats ''dead00beef''),
             total_supply (example_stats ''dead00beef''),
             (if has_source_code (example_stats ''dead00beef'') then 1 else 0)]"
    by blast
  then show ?thesis using s by (simp add: example_stats_def)
qed

text \<open>
  C3, as the specification states it, fails on the code: an address of odd length, not
  40, is encoded to a vector.
\<close>

theorem to_zkvm_input_odd_length_counterexample:
  "odd (length (contract_address (example_stats ''abc'')))
   \<and> length (contract_address (example_stats ''abc'')) \<noteq> 40
   \<and> to_zkvm_input (example_stats ''abc'') = Inr [10, 188, 10, 1, 500, 2000, 1000, 1]"
proof -
  have h: "\<forall>ch \<in> set (contract_address (example_stats ''abc'')). hexdigit ch"
    by (simp add: example_stats_def hexdigit_def digit_value_def)
  have "split_address (example_stats ''abc'') = Inr (10, 188)"
    using split_address_hex[OF h] by (simp add: example_stats_def hex_value_def digit_value_def)
  then show ?thesis
    by (simp add: to_zkvm_input_def and_then_def int_of_bool_def example_stats_def)
qed

text \<open>
  C3, amended. The encoder checks no length. It fails exactly when \<^verbatim>\<open>int(x, 16)\<close>
  rejects one of the two halves of the address, always with the \<^verbatim>\<open>ValueError\<close>; every
  address of fewer than 2 characters fails so; every address of hexadecimal digits of
  length at least 2, whatever its parity and whether 40 or not, is encoded to a vector
  of 8 elements.
\<close>

theorem to_zkvm_input_failure:
  "((\<exists>e. to_zkvm_input st = Inl e) \<longleftrightarrow>
      int16 (take (length (contract_address st) div 2) (contract_address st)) = None \<or>
      int16 (drop (length (contract_address st) div 2) (contract_address st)) = None)
   \<and> (\<forall>e. to_zkvm_input st = Inl e \<longrightarrow> e = ValueError)
   \<and> (length (contract_address st) < 2 \<longrightarrow> to_zkvm_input st = Inl ValueError)
   \<and> ((\<forall>ch \<in> set (contract_address st). hexdigit ch) \<and> 2 \<le> length (contract_address st) \<longrightarrow>
        (\<exists>v. to_zkvm_input st = Inr v \<and> length v = 8))"
proof -
  let ?s = "contract_address st"
  let ?m = "length ?s div 2"
  have z: "to_zkvm_input st =
     (case int16 (take ?m ?s) of
        None \<Rightarrow> Inl ValueError
      | Some p1 \<Rightarrow>
          (case int16 (drop ?m ?s) of
             None \<Rightarrow> Inl ValueError
           | Some p2 \<Rightarrow>
               Inr [p1, p2, days_ago_added st, int_of_bool (is_active st), volume st,
                    market_cap st, total_supply st, int_of_bool (has_source_code st)]))"
    by (simp add: to_zkvm_input_def split_address_cases and_then_def split: option.splits)
  have 1: "(\<exists>e. to_zkvm_input st = Inl e) \<longleftrightarrow> int16 (take ?m ?s) = None \<or> int16 (drop ?m ?s) = None"
    unfolding z by (auto split: option.splits)
  have 2: "\<forall>e. to_zkvm_input st = Inl e \<longrightarrow> e = ValueError"
    unfolding z by (auto split: option.splits)
  have e: "int16 [] = None" by (simp add: int16_def skip_sign_def skip_prefix_def)
  have 3: "to_zkvm_input st = Inl ValueError" if "length ?s < 2"
  proof -
    from that have "?m = 0" by simp
    then have "int16 (take ?m ?s) = None" by (simp add: e)
    then show ?thesis unfolding z by simp
  qed
  have 4: "\<exists>v. to_zkvm_input st = Inr v \<and> length v = 8"
    if hex: "\<forall>ch \<in> set ?s. hexdigit ch" and len: "2 \<le> length ?s"
    using split_address_hex[OF hex len] by (simp add: to_zkvm_input_def and_then_def)
  show ?thesis using 1 2 3 4 by blast
qed

theorem to_zkvm_input_failure_witness:
  "(\<exists>v. to_zkvm_input (example_stats ''0123456789abcdefABCDEF0123456789abcdefABC'') = Inr v \<and> length v = 8)
   \<and> length ''0123456789abcdefABCDEF0123456789abcdefABC'' = 41
   \<and> to_zkvm_input (example_stats ''7'') = Inl ValueError"
proof -
  let ?st = "example_stats ''0123456789abcdefABCDEF0123456789abcdefABC''"
  have h: "(\<forall>ch \<in> set (contract_address ?st). hexdigit ch) \<and> 2 \<le> length (contract_address ?st)"
    by (simp add: example_stats_def hexdigit_def digit_value_def)
  from to_zkvm_input_failure[of ?st] h
  have a: "\<exists>v. to_zkvm_input ?st = Inr v \<and> length v = 8" by blast
  have "length (contract_address (example_stats ''7'')) < 2" by (simp add: example_stats_def)
  with to_zkvm_input_failure[of "example_stats ''7''"]
  have b: "to_zkvm_input (example_stats ''7'') = Inl ValueError" by blast
  show ?thesis using a b by simp
qed


subsection \<open>Reconciliation of the public inputs\<close>

lemma and_then_Inr_iff:
  "and_then r f = Inr v \<longleftrightarrow> (\<exists>x. r = Inr x \<and> f x = Inr v)"
  by (cases r) (simp_all add: and_then_def)

lemma and_then_Inr [simp]: "and_then (Inr x) f = f x"
  by (simp add: and_then_def)

lemma and_then_Inl [simp]: "and_then (Inl e) f = Inl e"
  by (simp add: and_then_def)

lemma other_inputs_cases:
  "other_inputs computation stats =
     (case split_address stats of
        Inl e \<Rightarrow> Inl e
      | Inr (part1, part2) \<Rightarrow>
          Inr \<lparr>score = score (inputs computation),
               signature = signature (inputs computation),
               address_part1 = part1,
               address_part2 = part2\<rparr>)"
  by (simp add: other_inputs_def split: sum.splits prod.splits)

lemma sample_split: "split_address (example_stats ''dead00beef'') = Inr (912080, 48879)"
proof -
  have "\<forall>ch \<in> set (contract_address (example_stats ''dead00beef'')). hexdigit ch"
    by (simp add: example_stats_def hexdigit_def digit_value_def)
  from split_address_hex[OF this] show ?thesis
    by (simp add: example_stats_def hex_value_def digit_value_def)
qed

lemma sample_layout:
  "Proof_to_solidity (comp_proof stub_computation) = Inr ((1, 2), [[3, 4], [5, 6]], (7, 8))"
  by (simp add: Proof_to_solidity_def stub_computation_def hex_at_def hex_at2_def index_def
      parse_int16_def int16_def skip_sign_def skip_prefix_def is_space_def digit_value_def)

lemma sample_compute:
  "compute stub_prover (example_stats ''dead00beef'') = Inr stub_computation"
  by (simp add: compute_def to_zkvm_input_def sample_split stub_prover_def)

lemma sample_other_inputs:
  "other_inputs stub_computation (example_stats ''dead00beef'')
     = Inr \<lparr>score = 7, signature = 9, address_part1 = 912080, address_part2 = 48879\<rparr>"
  by (simp add: other_inputs_cases sample_split stub_computation_def)

lemma sample_verify:
  "Contract_verify w3 ins (comp_proof stub_computation) =
     and_then (transact w3 ((1, 2), [[3, 4], [5, 6]], (7, 8)) (Inputs_to_solidity ins))
       (\<lambda>_. call w3 ((1, 2), [[3, 4], [5, 6]], (7, 8)) (Inputs_to_solidity ins))"
  by (simp add: Contract_verify_def sample_layout)

lemma sample_main_accepting:
  "main stub_prover accepting_node (example_stats ''dead00beef'') = Inr True"
  by (simp add: main_def sample_compute sample_other_inputs sample_verify accepting_node_def)

text \<open>
  C1. The inputs that \<^verbatim>\<open>main\<close> builds for the verifier take \<^verbatim>\<open>address_part1\<close> and
  \<^verbatim>\<open>address_part2\<close> from \<^verbatim>\<open>split_address\<close> on the \<^verbatim>\<open>Stats\<close> and \<^verbatim>\<open>score\<close> and
  \<^verbatim>\<open>signature\<close> from the computation; two computations with the same score and
  signature give the same inputs, whatever address parts they claim; and in a run that
  returns, the verifier was called with \<open>[score, signature, part1, part2]\<close> for the parts
  of the split.
\<close>

theorem other_inputs_reconciled:
  "other_inputs computation stats =
     (case split_address stats of
        Inl e \<Rightarrow> Inl e
      | Inr (part1, part2) \<Rightarrow>
          Inr \<lparr>score = score (inputs computation),
               signature = signature (inputs computation),
               address_part1 = part1,
               address_part2 = part2\<rparr>)
   \<and> (score (inputs other) = score (inputs computation) \<and>
      signature (inputs other) = signature (inputs computation) \<longrightarrow>
      other_inputs other stats = other_inputs computation stats)
   \<and> (main prover w3 stats = Inr receipt \<longrightarrow>
        (\<exists>c part1 part2 p.
           compute prover stats = Inr c \<and>
           split_address stats = Inr (part1, part2) \<and>
           Proof_to_solidity (comp_proof c) = Inr p \<and>
           call w3 p [score (inputs c), signature (inputs c), part1, part2] = Inr receipt))"
proof -
  have 2: "other_inputs other stats = other_inputs computation stats"
    if "score (inputs other) = score (inputs computation)"
      and "signature (inputs other) = signature (inputs computation)"
    using that by (simp add: other_inputs_cases split: sum.splits prod.splits)
  have 3: "\<exists>c part1 part2 p.
           compute prover stats = Inr c \<and>
           split_address stats = Inr (part1, part2) \<and>
           Proof_to_solidity (comp_proof c) = Inr p \<and>
           call w3 p [score (inputs c), signature (inputs c), part1, part2] = Inr receipt"
    if m: "main prover w3 stats = Inr receipt"
  proof -
    from m obtain c where c: "compute prover stats = Inr c"
      and m1: "and_then (other_inputs c stats) (\<lambda>ins.
                and_then (Contract_verify w3 ins (comp_proof c)) (\<lambda>receipt.
                  if \<not> receipt then Inl (RuntimeError ''Proof verification failed!'')
                  else Inr receipt)) = Inr receipt"
      unfolding main_def and_then_Inr_iff by blast
    from m1 obtain ins where i: "other_inputs c stats = Inr ins"
      and m2: "and_then (Contract_verify w3 ins (comp_proof c)) (\<lambda>receipt.
                  if \<not> receipt then Inl (RuntimeError ''Proof verification failed!'')
                  else Inr receipt) = Inr receipt"
      unfolding and_then_Inr_iff by blast
    from m2 obtain r where v: "Contract_verify w3 ins (comp_proof c) = Inr r"
      and r: "(if \<not> r then Inl (RuntimeError ''Proof verification failed!'') else Inr r) = Inr receipt"
      unfolding and_then_Inr_iff by blast
    from r have rr: "r = receipt" by (simp split: if_splits)
    from i obtain part1 part2 where s: "split_address stats = Inr (part1, part2)"
      and ins: "ins = \<lparr>score = score (inputs c), signature = signature (inputs c),
                        address_part1 = part1, address_part2 = part2\<rparr>"
      unfolding other_inputs_cases by (auto split: sum.splits prod.splits)
    from v obtain p where p: "Proof_to_solidity (comp_proof c) = Inr p"
      and cl: "call w3 p (Inputs_to_solidity ins) = Inr r"
      unfolding Contract_verify_def and_then_Inr_iff by auto
    from cl have "call w3 p [score (inputs c), signature (inputs c), part1, part2] = Inr receipt"
      by (simp add: Inputs_to_solidity_def ins rr)
    with c s p show ?thesis by blast
  qed
  show ?thesis using other_inputs_cases 2 3 by blast
qed

theorem other_inputs_reconciled_witness:
  "other_inputs (stub_computation\<lparr>inputs := \<lparr>score = 7, signature = 9, address_part1 = 1, address_part2 = 2\<rparr>\<rparr>)
                (example_stats ''dead00beef'')
     = other_inputs stub_computation (example_stats ''dead00beef'')
   \<and> other_inputs stub_computation (example_stats ''dead00beef'')
     = Inr \<lparr>score = 7, signature = 9, address_part1 = 912080, address_part2 = 48879\<rparr>
   \<and> main stub_prover accepting_node (example_stats ''dead00beef'') = Inr True
   \<and> call accepting_node ((1, 2), [[3, 4], [5, 6]], (7, 8)) [7, 9, 912080, 48879] = Inr True"
proof -
  let ?o = "stub_computation\<lparr>inputs := \<lparr>score = 7, signature = 9, address_part1 = 1, address_part2 = 2\<rparr>\<rparr>"
  let ?st = "example_stats ''dead00beef''"
  have h: "score (inputs ?o) = score (inputs stub_computation) \<and>
           signature (inputs ?o) = signature (inputs stub_computation)"
    by (simp add: stub_computation_def)
  note t = other_inputs_reconciled[of stub_computation ?st ?o stub_prover accepting_node True]
  from t h have a: "other_inputs ?o ?st = other_inputs stub_computation ?st" by blast
  from t have "other_inputs stub_computation ?st =
     (case split_address ?st of
        Inl e \<Rightarrow> Inl e
      | Inr (part1, part2) \<Rightarrow>
          Inr \<lparr>score = score (inputs stub_computation),
               signature = signature (inputs stub_computation),
               address_part1 = part1,
               address_part2 = part2\<rparr>)" by blast
  then have b: "other_inputs stub_computation ?st
     = Inr \<lparr>score = 7, signature = 9, address_part1 = 912080, address_part2 = 48879\<rparr>"
    by (simp add: sample_split stub_computation_def)
  from t sample_main_accepting
  obtain c part1 part2 p where r: "compute stub_prover ?st = Inr c"
    "split_address ?st = Inr (part1, part2)" "Proof_to_solidity (comp_proof c) = Inr p"
    "call accepting_node p [score (inputs c), signature (inputs c), part1, part2] = Inr True"
    by blast
  from r(1) have c: "c = stub_computation" by (simp add: sample_compute)
  from r(2) have s: "part1 = 912080" "part2 = 48879" by (simp_all add: sample_split)
  from r(3) have p: "p = ((1, 2), [[3, 4], [5, 6]], (7, 8))" by (simp add: c sample_layout)
  from r(4) have d: "call accepting_node ((1, 2), [[3, 4], [5, 6]], (7, 8)) [7, 9, 912080, 48879] = Inr True"
    by (simp add: c s p stub_computation_def)
  show ?thesis using a b d sample_main_accepting by simp
qed


subsection \<open>The outcome of a run\<close>





subsection \<open>The layouts handed to the verifier\<close>

lemma uint256_hex_int16:
  assumes "uint256_hex s"
  shows "int16 s = Some (uint256_value s)" and "uint256 (uint256_value s)"
proof -
  let ?d = "strip_0x s"
  have ne: "?d \<noteq> []" and hex: "\<forall>ch \<in> set ?d. hexdigit ch" and len: "length ?d \<le> 64"
    using assms by (simp_all add: uint256_hex_def Let_def)
  show "int16 s = Some (uint256_value s)"
  proof (cases "take 2 s = ''0x''")
    case True
    then have "s = CHR ''0'' # CHR ''x'' # drop 2 s"
      by (metis append_take_drop_id append_Cons append_Nil)
    moreover have "?d = drop 2 s" using True by (simp add: strip_0x_def)
    ultimately have "s = CHR ''0'' # CHR ''x'' # ?d" by simp
    then have "int16 s = int16 (CHR ''0'' # CHR ''x'' # ?d)" by simp
    also have "\<dots> = Some (hex_value ?d)" by (rule int16_0x[OF ne hex])
    finally show ?thesis by (simp add: uint256_value_def)
  next
    case False
    then have "?d = s" by (simp add: strip_0x_def)
    then show ?thesis using int16_hex[OF ne hex] by (simp add: uint256_value_def)
  qed
  have "hex_value ?d < 16 ^ length ?d" by (rule hex_value_less[OF hex])
  also have "(16::int) ^ length ?d \<le> 16 ^ 64" using len by (intro power_increasing) simp_all
  also have "(16::int) ^ 64 = 2 ^ 256" by simp
  finally show "uint256 (uint256_value s)"
    using hex_value_nonneg[of ?d] by (simp add: uint256_def uint256_value_def)
qed

lemma hex_at_Some:
  "i < length xs \<Longrightarrow> int16 (xs ! i) = Some v \<Longrightarrow> hex_at xs i = Inr v"
  by (simp add: hex_at_def index_def parse_int16_def)

lemma hex_at_None:
  "i < length xs \<Longrightarrow> int16 (xs ! i) = None \<Longrightarrow> hex_at xs i = Inl ValueError"
  by (simp add: hex_at_def index_def parse_int16_def)

lemma hex_at_cases:
  "i < length xs \<Longrightarrow>
   hex_at xs i = (case int16 (xs ! i) of None \<Rightarrow> Inl ValueError | Some v \<Rightarrow> Inr v)"
  by (simp add: hex_at_def index_def parse_int16_def)

lemma Proof_to_solidity_shape:
  assumes "proof_a p = [a0, a1]" "proof_b p = [[b00, b01], [b10, b11]]" "proof_c p = [c0, c1]"
  shows "Proof_to_solidity p =
     and_then (parse_int16 a0) (\<lambda>a0'.
     and_then (parse_int16 a1) (\<lambda>a1'.
     and_then (parse_int16 b00) (\<lambda>b00'.
     and_then (parse_int16 b01) (\<lambda>b01'.
     and_then (parse_int16 b10) (\<lambda>b10'.
     and_then (parse_int16 b11) (\<lambda>b11'.
     and_then (parse_int16 c0) (\<lambda>c0'.
     and_then (parse_int16 c1) (\<lambda>c1'.
     Inr ((a0', a1'), [[b00', b01'], [b10', b11']], (c0', c1'))))))))))"
  by (simp add: Proof_to_solidity_def assms hex_at_def hex_at2_def index_def)

text \<open>
  C7. For a proof whose fields are the pair \<open>a\<close>, the 2 by 2 array \<open>b\<close> and the pair
  \<open>c\<close> of hexadecimal strings of unsigned 256-bit integers, \<^verbatim>\<open>Proof.to_solidity\<close>
  returns the pair, the array of two arrays and the pair of their values, each between 0
  and \<open>2 ^ 256 - 1\<close>; \<^verbatim>\<open>Inputs.to_solidity\<close> returns the four fields in the order
  score, signature, address_part1, address_part2.
\<close>

theorem to_solidity_layout:
  assumes "proof_a p = [a0, a1]"
    and "proof_b p = [[b00, b01], [b10, b11]]"
    and "proof_c p = [c0, c1]"
    and "\<forall>s \<in> set [a0, a1, b00, b01, b10, b11, c0, c1]. uint256_hex s"
  shows "Proof_to_solidity p =
           Inr ((uint256_value a0, uint256_value a1),
                [[uint256_value b00, uint256_value b01],
                 [uint256_value b10, uint256_value b11]],
                (uint256_value c0, uint256_value c1))
         \<and> (\<forall>s \<in> set [a0, a1, b00, b01, b10, b11, c0, c1].
               int16 s = Some (uint256_value s) \<and> uint256 (uint256_value s))
         \<and> Inputs_to_solidity i = [score i, signature i, address_part1 i, address_part2 i]"
proof -
  have v: "parse_int16 s = Inr (uint256_value s)" if "uint256_hex s" for s
    using uint256_hex_int16(1)[OF that] by (simp add: parse_int16_def)
  have 1: "Proof_to_solidity p =
           Inr ((uint256_value a0, uint256_value a1),
                [[uint256_value b00, uint256_value b01],
                 [uint256_value b10, uint256_value b11]],
                (uint256_value c0, uint256_value c1))"
    unfolding Proof_to_solidity_shape[OF assms(1-3)] using assms(4) by (simp add: v)
  have 2: "\<forall>s \<in> set [a0, a1, b00, b01, b10, b11, c0, c1].
               int16 s = Some (uint256_value s) \<and> uint256 (uint256_value s)"
    using assms(4) uint256_hex_int16 by blast
  have 3: "Inputs_to_solidity i = [score i, signature i, address_part1 i, address_part2 i]"
    by (simp add: Inputs_to_solidity_def)
  show ?thesis using 1 2 3 by blast
qed

theorem to_solidity_layout_witness:
  "Proof_to_solidity (comp_proof stub_computation) = Inr ((1, 2), [[3, 4], [5, 6]], (7, 8))
   \<and> Inputs_to_solidity (inputs stub_computation) = [7, 9, 666, 999]"
proof -
  have h: "\<forall>s \<in> set [''0x01'', ''0x02'', ''0x03'', ''0x04'', ''0x05'', ''0x06'', ''0x07'', ''0x08''].
             uint256_hex s"
    by (simp add: uint256_hex_def strip_0x_def hexdigit_def digit_value_def)
  have a: "proof_a (comp_proof stub_computation) = [''0x01'', ''0x02'']"
    and b: "proof_b (comp_proof stub_computation) = [[''0x03'', ''0x04''], [''0x05'', ''0x06'']]"
    and c: "proof_c (comp_proof stub_computation) = [''0x07'', ''0x08'']"
    by (simp_all add: stub_computation_def)
  from to_solidity_layout[OF a b c h, of "inputs stub_computation"]
  show ?thesis
    by (simp add: uint256_value_def strip_0x_def hex_value_def digit_value_def stub_computation_def)
qed

subsection \<open>Decoding the prover's output\<close>

text \<open>
  C5, as the specification states it, fails on the code: a document whose \<^verbatim>\<open>proof.a\<close>
  holds a string that is no number is read without an error, the string copied into
  the \<^verbatim>\<open>Proof\<close>.
\<close>

theorem get_results_malformed_proof_counterexample:
  "int16 ''zz'' = None
   \<and> get_results (Inr ''zokrates'') 0 malformed_proof_doc
       = Inr \<lparr>curve = ''bn128'',
              comp_proof = \<lparr>proof_a = [''zz'', ''0x02''],
                            proof_b = [[''0x03'', ''0x04''], [''0x05'', ''0x06'']],
                            proof_c = [''0x07'', ''0x08'']\<rparr>,
              scheme = ''g16'',
              inputs = \<lparr>score = 10, signature = 11, address_part1 = 12, address_part2 = 13\<rparr>\<rparr>"
  by (simp add: get_results_def malformed_proof_doc_def index_def parse_int16_def int16_def
      skip_sign_def skip_prefix_def is_space_def digit_value_def)

lemma less_4_cases: "(i::nat) < 4 \<longleftrightarrow> i = 0 \<or> i = 1 \<or> i = 2 \<or> i = 3"
  by arith

lemma get_results_cases:
  assumes "4 \<le> length (doc_inputs results)"
  shows "get_results (Inr cn) 0 results =
     and_then (parse_int16 (doc_inputs results ! 0)) (\<lambda>i0.
     and_then (parse_int16 (doc_inputs results ! 1)) (\<lambda>i1.
     and_then (parse_int16 (doc_inputs results ! 2)) (\<lambda>i2.
     and_then (parse_int16 (doc_inputs results ! 3)) (\<lambda>i3.
     Inr \<lparr>curve = doc_curve results,
          comp_proof = \<lparr>proof_a = doc_a results, proof_b = doc_b results,
                        proof_c = doc_c results\<rparr>,
          scheme = doc_scheme results,
          inputs = \<lparr>score = i0, signature = i1, address_part1 = i2, address_part2 = i3\<rparr>\<rparr>))))"
proof -
  have i: "index (doc_inputs results) k = Inr (doc_inputs results ! k)" if "k < 4" for k
    using assms that by (simp add: index_def)
  show ?thesis by (simp add: get_results_def i)
qed

lemma get_results_length:
  assumes "get_results (Inr cn) 0 results = Inr c"
  shows "4 \<le> length (doc_inputs results)"
proof (rule ccontr)
  assume "\<not> 4 \<le> length (doc_inputs results)"
  then have "length (doc_inputs results) < 4" by simp
  then have "\<exists>e. get_results (Inr cn) 0 results = Inl e"
    by (auto simp: get_results_def index_def and_then_def less_4_cases split: sum.splits)
  with assms show False by simp
qed

text \<open>
  C5, amended. \<^verbatim>\<open>get_results\<close> parses the first four entries of \<^verbatim>\<open>inputs\<close> with
  \<^verbatim>\<open>int(x, 16)\<close>, in the order score, signature, address_part1, address_part2, raises
  the \<^verbatim>\<open>ValueError\<close> when one of them does not parse and returns when all four do; it
  copies the proof fields \<^verbatim>\<open>a\<close>, \<^verbatim>\<open>b\<close>, \<^verbatim>\<open>c\<close> unparsed. A proof string that does not
  parse raises the \<^verbatim>\<open>ValueError\<close> in \<^verbatim>\<open>Proof.to_solidity\<close>, when the proof is laid out
  for the verifier.
\<close>

theorem get_results_decoding:
  "(get_results (Inr cn) 0 results = Inr c \<longrightarrow>
      4 \<le> length (doc_inputs results) \<and>
      int16 (doc_inputs results ! 0) = Some (score (inputs c)) \<and>
      int16 (doc_inputs results ! 1) = Some (signature (inputs c)) \<and>
      int16 (doc_inputs results ! 2) = Some (address_part1 (inputs c)) \<and>
      int16 (doc_inputs results ! 3) = Some (address_part2 (inputs c)) \<and>
      comp_proof c = \<lparr>proof_a = doc_a results, proof_b = doc_b results, proof_c = doc_c results\<rparr>)
   \<and> (4 \<le> length (doc_inputs results) \<and> (\<exists>k < 4. int16 (doc_inputs results ! k) = None) \<longrightarrow>
        get_results (Inr cn) 0 results = Inl ValueError)
   \<and> (4 \<le> length (doc_inputs results) \<and> (\<forall>k < 4. int16 (doc_inputs results ! k) \<noteq> None) \<longrightarrow>
        (\<exists>c'. get_results (Inr cn) 0 results = Inr c'))
   \<and> (proof_a p = [a0, a1] \<and> proof_b p = [[b00, b01], [b10, b11]] \<and> proof_c p = [c0, c1] \<and>
      (\<exists>s \<in> set [a0, a1, b00, b01, b10, b11, c0, c1]. int16 s = None) \<longrightarrow>
        Proof_to_solidity p = Inl ValueError)"
proof -
  have 1: "4 \<le> length (doc_inputs results) \<and>
      int16 (doc_inputs results ! 0) = Some (score (inputs c)) \<and>
      int16 (doc_inputs results ! 1) = Some (signature (inputs c)) \<and>
      int16 (doc_inputs results ! 2) = Some (address_part1 (inputs c)) \<and>
      int16 (doc_inputs results ! 3) = Some (address_part2 (inputs c)) \<and>
      comp_proof c = \<lparr>proof_a = doc_a results, proof_b = doc_b results, proof_c = doc_c results\<rparr>"
    if g: "get_results (Inr cn) 0 results = Inr c"
  proof -
    have l: "4 \<le> length (doc_inputs results)" by (rule get_results_length[OF g])
    from g show ?thesis
      unfolding get_results_cases[OF l] using l
      by (auto simp: parse_int16_def and_then_def split: option.splits)
  qed
  have 2: "get_results (Inr cn) 0 results = Inl ValueError"
    if l: "4 \<le> length (doc_inputs results)"
      and n: "\<exists>k < 4. int16 (doc_inputs results ! k) = None"
    using n unfolding get_results_cases[OF l] less_4_cases
    by (auto simp: parse_int16_def and_then_def split: option.splits)
  have 3: "\<exists>c'. get_results (Inr cn) 0 results = Inr c'"
    if l: "4 \<le> length (doc_inputs results)"
      and n: "\<forall>k < 4. int16 (doc_inputs results ! k) \<noteq> None"
  proof -
    from n have "int16 (doc_inputs results ! 0) \<noteq> None" "int16 (doc_inputs results ! 1) \<noteq> None"
      "int16 (doc_inputs results ! 2) \<noteq> None" "int16 (doc_inputs results ! 3) \<noteq> None"
      by simp_all
    then show ?thesis
      unfolding get_results_cases[OF l]
      by (auto simp: parse_int16_def and_then_def split: option.splits)
  qed
  have 4: "Proof_to_solidity p = Inl ValueError"
    if "proof_a p = [a0, a1]" "proof_b p = [[b00, b01], [b10, b11]]" "proof_c p = [c0, c1]"
      and n: "\<exists>s \<in> set [a0, a1, b00, b01, b10, b11, c0, c1]. int16 s = None"
    using n unfolding Proof_to_solidity_shape[OF that(1-3)]
    by (auto simp: parse_int16_def and_then_def split: option.splits)
  show ?thesis using 1 2 3 4 by blast
qed

theorem get_results_decoding_witness:
  "(\<exists>c. get_results (Inr ''zokrates'') 0 malformed_proof_doc = Inr c
        \<and> score (inputs c) = 10 \<and> signature (inputs c) = 11
        \<and> address_part1 (inputs c) = 12 \<and> address_part2 (inputs c) = 13
        \<and> proof_a (comp_proof c) = [''zz'', ''0x02''])
   \<and> get_results (Inr ''zokrates'') 0
        (malformed_proof_doc\<lparr>doc_inputs := [''0x0a'', ''0x0b'', ''0y0c'', ''0x0d'']\<rparr>)
       = Inl ValueError
   \<and> Proof_to_solidity
        \<lparr>proof_a = doc_a malformed_proof_doc, proof_b = doc_b malformed_proof_doc,
         proof_c = doc_c malformed_proof_doc\<rparr> = Inl ValueError"
proof -
  let ?bad = "malformed_proof_doc\<lparr>doc_inputs := [''0x0a'', ''0x0b'', ''0y0c'', ''0x0d'']\<rparr>"
  let ?p = "\<lparr>proof_a = doc_a malformed_proof_doc, proof_b = doc_b malformed_proof_doc,
             proof_c = doc_c malformed_proof_doc\<rparr>"
  have ev: "int16 ''0x0a'' = Some 10" "int16 ''0x0b'' = Some 11" "int16 ''0x0c'' = Some 12"
    "int16 ''0x0d'' = Some 13" "int16 ''0y0c'' = None" "int16 ''zz'' = None"
    by (simp_all add: int16_def skip_sign_def skip_prefix_def is_space_def digit_value_def)
  have l: "4 \<le> length (doc_inputs malformed_proof_doc)" by (simp add: malformed_proof_doc_def)
  have ok: "\<forall>k < 4. int16 (doc_inputs malformed_proof_doc ! k) \<noteq> None"
    by (simp add: less_4_cases malformed_proof_doc_def ev)
  from get_results_decoding[of "''zokrates''" malformed_proof_doc] l ok
  obtain c where g: "get_results (Inr ''zokrates'') 0 malformed_proof_doc = Inr c" by blast
  from get_results_decoding[of "''zokrates''" malformed_proof_doc c] g
  have d: "int16 (doc_inputs malformed_proof_doc ! 0) = Some (score (inputs c))"
    "int16 (doc_inputs malformed_proof_doc ! 1) = Some (signature (inputs c))"
    "int16 (doc_inputs malformed_proof_doc ! 2) = Some (address_part1 (inputs c))"
    "int16 (doc_inputs malformed_proof_doc ! 3) = Some (address_part2 (inputs c))"
    "comp_proof c = \<lparr>proof_a = doc_a malformed_proof_doc, proof_b = doc_b malformed_proof_doc,
                     proof_c = doc_c malformed_proof_doc\<rparr>"
    by blast+
  from d(1-4) have v: "score (inputs c) = 10" "signature (inputs c) = 11"
    "address_part1 (inputs c) = 12" "address_part2 (inputs c) = 13"
    by (simp_all add: malformed_proof_doc_def ev)
  from d(5) have pa: "proof_a (comp_proof c) = [''zz'', ''0x02'']"
    by (simp add: malformed_proof_doc_def)
  from g v pa have a: "\<exists>c. get_results (Inr ''zokrates'') 0 malformed_proof_doc = Inr c
        \<and> score (inputs c) = 10 \<and> signature (inputs c) = 11
        \<and> address_part1 (inputs c) = 12 \<and> address_part2 (inputs c) = 13
        \<and> proof_a (comp_proof c) = [''zz'', ''0x02'']" by blast
  have l': "4 \<le> length (doc_inputs ?bad)" by simp
  have "int16 (doc_inputs ?bad ! 2) = None" by (simp add: ev)
  then have no: "\<exists>k < 4. int16 (doc_inputs ?bad ! k) = None" by (intro exI[of _ 2]) simp
  from get_results_decoding[of "''zokrates''" ?bad] l' no
  have b: "get_results (Inr ''zokrates'') 0 ?bad = Inl ValueError" by blast
  have sa: "proof_a ?p = [''zz'', ''0x02'']"
    and sb: "proof_b ?p = [[''0x03'', ''0x04''], [''0x05'', ''0x06'']]"
    and sc: "proof_c ?p = [''0x07'', ''0x08'']"
    by (simp_all add: malformed_proof_doc_def)
  have ex: "\<exists>s \<in> set [''zz'', ''0x02'', ''0x03'', ''0x04'', ''0x05'', ''0x06'', ''0x07'', ''0x08''].
              int16 s = None"
    using ev(6) by simp
  from get_results_decoding[of _ _ _ ?p "''zz''" "''0x02''" "''0x03''" "''0x04''" "''0x05''"
                               "''0x06''" "''0x07''" "''0x08''"] sa sb sc ex
  have c: "Proof_to_solidity ?p = Inl ValueError" by blast
  show ?thesis using a b c by blast
qed


end
